theory Spec2Isabelle
  imports Main "HOL-Library.Word" "HOL-Library.Multiset" "HOL-Library.Sublist"
begin

section \<open>Data model\<close>

text \<open>
  Text that comes from the user or the server (message bodies, the composer's
  input, tokens, user names) is a JavaScript string: a sequence of 16-bit code
  units. Literals of the program itself (storage keys, connection state names,
  paths) are ASCII and are written as HOL strings.
\<close>

type_synonym js_string = "16 word list"

text \<open>
  \<open>signalR.HubConnectionState\<close> of the SignalR client library: the lifecycle
  state that \<open>connection.state\<close> reads. It has five members; the source
  names four of them.
\<close>

datatype HubConnectionState =
  Disconnected | Connecting | Connected | Disconnecting | Reconnecting

text \<open>A value thrown or a rejected promise's reason.\<close>

datatype error = Error string

text \<open>How a call of a method ends: it returns, or it throws to its caller.\<close>

datatype completion = Returned | Threw error

text \<open>The object \<open>{ receiverId, content }\<close> pushed on the offline queue.\<close>

record queued_message =
  receiverId :: int
  content :: js_string

text \<open>The remote operations invoked on the hub through \<open>connection.invoke\<close>.\<close>

datatype hub_call = SendMessage int js_string | GetConversation int

text \<open>
  The hub connection object built by \<open>HubConnectionBuilder\<close>: the token its
  \<open>accessTokenFactory\<close> returns, its lifecycle state and, as a record of
  what was asked of the remote side, the calls made through \<open>invoke\<close> in
  order, each with whether its promise resolved.
\<close>

record hub_connection =
  accessToken :: js_string
  state :: HubConnectionState
  invocations :: "(hub_call \<times> bool) list"

text \<open>
  What the transport is asked to do, and its answer: the promise resolves
  (\<open>failure = None\<close>) or rejects, and the connection is left in \<open>state_after\<close>.
  The transport is outside the program; it is a parameter of every operation
  that awaits it, and may answer by the connection's whole history.
\<close>

datatype request = Start | Stop | Invoke hub_call

record reply =
  failure :: "error option"
  state_after :: HubConnectionState

type_synonym transport = "hub_connection \<Rightarrow> request \<Rightarrow> reply"

text \<open>Payloads pushed by the hub, and the events fanned out to listeners.\<close>

record message =
  id_message :: int
  senderId :: int
  receiverId_message :: int
  content_message :: js_string
  timestamp :: js_string

record user =
  id_user :: int
  username_user :: js_string

datatype event =
  ReceiveMessage message
  | MessageSent message
  | ConversationHistory "message list"
  | UserRegistered "user option"
  | ConnectionStateChanged string

text \<open>
  A listener is a JavaScript function, compared by identity (\<open>c !== callback\<close>);
  it is named by a number. The lists of the service hold these names.
\<close>

type_synonym listener = nat

record chat_service =
  connection :: "hub_connection option"
  messageCallbacks :: "listener list"
  messageSentCallbacks :: "listener list"
  conversationHistoryCallbacks :: "listener list"
  connectionStateCallbacks :: "listener list"
  userRegisteredCallbacks :: "listener list"
  messageQueue :: "queued_message list"

text \<open>
  What a listener does when it is called is outside the connection manager
  and is a parameter of every operation that calls listeners: called with an
  event in some state of the service, the listener returns or throws, and it
  may have changed the service on the way, by calling its methods or one of
  the deregistration handles.
\<close>

type_synonym behaviour = "listener \<Rightarrow> event \<Rightarrow> chat_service \<Rightarrow> completion \<times> chat_service"

text \<open>
  The result of an operation that calls listeners: how it ended, the service
  afterwards, and the calls it made, in order.
\<close>

record delivery =
  outcome :: completion
  after :: chat_service
  called :: "(listener \<times> event) list"

section \<open>The connection manager: \<open>ChatService\<close>\<close>

definition constructor :: chat_service where
  "constructor =
     \<lparr>connection = None, messageCallbacks = [], messageSentCallbacks = [],
      conversationHistoryCallbacks = [], connectionStateCallbacks = [],
      userRegisteredCallbacks = [], messageQueue = []\<rparr>"

subsection \<open>Reconnection policy\<close>

record retry_context =
  previousRetryCount :: int
  elapsedMilliseconds :: int

definition nextRetryDelayInMilliseconds :: "retry_context \<Rightarrow> int" where
  "nextRetryDelayInMilliseconds retryContext =
     (if previousRetryCount retryContext = 0 then 0
      else if previousRetryCount retryContext = 1 then 2000
      else if previousRetryCount retryContext = 2 then 10000
      else 30000)"

subsection \<open>The transport's operations\<close>

text \<open>
  \<open>connection.start()\<close>, \<open>connection.stop()\<close> and \<open>connection.invoke(...)\<close>
  of the library: each awaits the transport, which answers with a resolved or
  a rejected promise and leaves the connection in some lifecycle state. An
  invocation is added to the connection's record.
\<close>

definition start :: "transport \<Rightarrow> hub_connection \<Rightarrow> completion \<times> hub_connection" where
  "start net c =
     (let r = net c Start
      in (case failure r of None \<Rightarrow> Returned | Some e \<Rightarrow> Threw e,
          c\<lparr>state := state_after r\<rparr>))"

definition stop :: "transport \<Rightarrow> hub_connection \<Rightarrow> completion \<times> hub_connection" where
  "stop net c =
     (let r = net c Stop
      in (case failure r of None \<Rightarrow> Returned | Some e \<Rightarrow> Threw e,
          c\<lparr>state := state_after r\<rparr>))"

definition invoke :: "transport \<Rightarrow> hub_call \<Rightarrow> hub_connection \<Rightarrow> completion \<times> hub_connection" where
  "invoke net call c =
     (let r = net c (Invoke call)
      in (case failure r of None \<Rightarrow> Returned | Some e \<Rightarrow> Threw e,
          c\<lparr>state := state_after r,
            invocations := invocations c @ [(call, failure r = None)]\<rparr>))"

subsection \<open>Listeners\<close>

text \<open>
  \<open>callbacks.forEach((callback) => callback(payload))\<close>: the elements of the
  array that the field held when \<open>forEach\<close> began are called in turn. A
  listener that throws ends the loop, and its exception leaves \<open>forEach\<close>.
  What a listener does to the field meanwhile does not change the loop: a
  handle assigns a filtered copy to the field, and \<open>forEach\<close> does not visit
  elements pushed after it began.
\<close>

fun forEach_callback :: "behaviour \<Rightarrow> listener list \<Rightarrow> event \<Rightarrow> chat_service \<Rightarrow> delivery" where
  "forEach_callback run [] e s = \<lparr>outcome = Returned, after = s, called = []\<rparr>"
| "forEach_callback run (callback # rest) e s =
     (case run callback e s of
        (Threw err, s') \<Rightarrow> \<lparr>outcome = Threw err, after = s', called = [(callback, e)]\<rparr>
      | (Returned, s') \<Rightarrow>
          (let d = forEach_callback run rest e s'
           in d\<lparr>called := (callback, e) # called d\<rparr>))"

definition notifyConnectionState :: "behaviour \<Rightarrow> string \<Rightarrow> chat_service \<Rightarrow> delivery" where
  "notifyConnectionState run st s =
     forEach_callback run (connectionStateCallbacks s) (ConnectionStateChanged st) s"




definition onConnectionStateChanged ::
  "listener \<Rightarrow> chat_service \<Rightarrow> chat_service \<times> (chat_service \<Rightarrow> chat_service)" where
  "onConnectionStateChanged callback s =
     (s\<lparr>connectionStateCallbacks := connectionStateCallbacks s @ [callback]\<rparr>,
      \<lambda>t. t\<lparr>connectionStateCallbacks :=
               filter (\<lambda>c. c \<noteq> callback) (connectionStateCallbacks t)\<rparr>)"












subsection \<open>Connecting and disconnecting\<close>

definition disconnect :: "transport \<Rightarrow> chat_service \<Rightarrow> completion \<times> chat_service" where
  "disconnect net s =
     (case connection s of
        None \<Rightarrow> (Returned, s)
      | Some c \<Rightarrow>
          (case stop net c of
             (Threw e, c') \<Rightarrow> (Threw e, s\<lparr>connection := Some c'\<rparr>)
           | (Returned, c') \<Rightarrow> (Returned, s\<lparr>connection := None\<rparr>)))"

text \<open>The connection that \<open>HubConnectionBuilder\<close> builds for a token.\<close>

definition build :: "js_string \<Rightarrow> hub_connection" where
  "build token = \<lparr>accessToken = token, state = Disconnected, invocations = []\<rparr>"

text \<open>
  The \<open>catch\<close> block of \<open>connect\<close>, entered with the caught error, the service
  and the listener calls made so far: it notifies \<open>error\<close> and rethrows the
  caught error, unless a listener throws during the notification, whose
  exception then leaves the block instead.
\<close>

definition connect_catch ::
  "behaviour \<Rightarrow> error \<Rightarrow> chat_service \<Rightarrow> (listener \<times> event) list \<Rightarrow> delivery" where
  "connect_catch run e s made =
     (let d = notifyConnectionState run ''error'' s
      in \<lparr>outcome = (case outcome d of Returned \<Rightarrow> Threw e | Threw e' \<Rightarrow> Threw e'),
          after = after d, called = made @ called d\<rparr>)"

text \<open>
  \<open>connect\<close>: an existing connection is stopped first, outside the \<open>try\<close>;
  the new connection is built and its handlers registered; then, inside
  \<open>try\<close>, \<open>start\<close> is awaited and \<open>connected\<close> is notified.
\<close>

definition connect ::
  "behaviour \<Rightarrow> transport \<Rightarrow> js_string \<Rightarrow> chat_service \<Rightarrow> delivery" where
  "connect run net token s =
     (case (if connection s \<noteq> None then disconnect net s else (Returned, s)) of
        (Threw e, s1) \<Rightarrow> \<lparr>outcome = Threw e, after = s1, called = []\<rparr>
      | (Returned, s1) \<Rightarrow>
          (case start net (build token) of
             (Returned, c) \<Rightarrow>
               (let d = notifyConnectionState run ''connected'' (s1\<lparr>connection := Some c\<rparr>)
                in case outcome d of
                     Returned \<Rightarrow> d
                   | Threw e \<Rightarrow> connect_catch run e (after d) (called d))
           | (Threw e, c) \<Rightarrow> connect_catch run e (s1\<lparr>connection := Some c\<rparr>) []))"

text \<open>
  The service inside \<open>connect\<close> at the moment \<open>start\<close> has been awaited: the
  earlier connection stopped, the new one in place.
\<close>

definition started :: "transport \<Rightarrow> js_string \<Rightarrow> chat_service \<Rightarrow> chat_service" where
  "started net token s =
     (snd (disconnect net s))\<lparr>connection := Some (snd (start net (build token)))\<rparr>"

subsection \<open>Sending, history requests and the offline queue\<close>

definition sendMessage ::
  "transport \<Rightarrow> int \<Rightarrow> js_string \<Rightarrow> chat_service \<Rightarrow> completion \<times> chat_service" where
  "sendMessage net rid text s =
     (case connection s of
        None \<Rightarrow>
          (Returned,
           s\<lparr>messageQueue := messageQueue s @ [\<lparr>receiverId = rid, content = text\<rparr>]\<rparr>)
      | Some c \<Rightarrow>
          if state c \<noteq> Connected then
            (Returned,
             s\<lparr>messageQueue := messageQueue s @ [\<lparr>receiverId = rid, content = text\<rparr>]\<rparr>)
          else
            (case invoke net (SendMessage rid text) c of
               (Returned, c') \<Rightarrow> (Returned, s\<lparr>connection := Some c'\<rparr>)
             | (Threw e, c') \<Rightarrow>
                 (Returned,
                  s\<lparr>connection := Some c',
                    messageQueue :=
                      messageQueue s @ [\<lparr>receiverId = rid, content = text\<rparr>]\<rparr>)))"

definition getConversation ::
  "transport \<Rightarrow> int \<Rightarrow> chat_service \<Rightarrow> completion \<times> chat_service" where
  "getConversation net otherUserId s =
     (case connection s of
        None \<Rightarrow> (Returned, s)
      | Some c \<Rightarrow>
          if state c \<noteq> Connected then (Returned, s)
          else
            (case invoke net (GetConversation otherUserId) c of
               (Returned, c') \<Rightarrow> (Returned, s\<lparr>connection := Some c'\<rparr>)
             | (Threw e, c') \<Rightarrow> (Returned, s\<lparr>connection := Some c'\<rparr>)))"

text \<open>
  The loop of \<open>flushMessageQueue\<close> over the snapshot: each entry is sent
  again and awaited; a send that threw would end the loop.
\<close>

fun resend :: "transport \<Rightarrow> queued_message list \<Rightarrow> chat_service \<Rightarrow> completion \<times> chat_service" where
  "resend net [] s = (Returned, s)"
| "resend net (m # queue) s =
     (case sendMessage net (receiverId m) (content m) s of
        (Threw e, s') \<Rightarrow> (Threw e, s')
      | (Returned, s') \<Rightarrow> resend net queue s')"

definition flushMessageQueue :: "transport \<Rightarrow> chat_service \<Rightarrow> completion \<times> chat_service" where
  "flushMessageQueue net s =
     (if length (messageQueue s) = 0 then (Returned, s)
      else
        (let queue = messageQueue s
         in resend net queue (s\<lparr>messageQueue := []\<rparr>)))"

subsection \<open>Lifecycle handlers\<close>

text \<open>
  The handlers registered with \<open>onreconnecting\<close>, \<open>onreconnected\<close> and
  \<open>onclose\<close>; the library calls them after it has changed the connection's
  state itself. In \<open>onreconnected\<close> the flush follows the notification, so a
  listener that throws there leaves the queue unflushed.
\<close>

definition onreconnecting :: "behaviour \<Rightarrow> chat_service \<Rightarrow> delivery" where
  "onreconnecting run s = notifyConnectionState run ''reconnecting'' s"

definition onreconnected :: "behaviour \<Rightarrow> transport \<Rightarrow> chat_service \<Rightarrow> delivery" where
  "onreconnected run net s =
     (let d = notifyConnectionState run ''connected'' s
      in case outcome d of
           Threw e \<Rightarrow> d
         | Returned \<Rightarrow>
             (case flushMessageQueue net (after d) of
                (r, s') \<Rightarrow> \<lparr>outcome = r, after = s', called = called d\<rparr>))"

definition onclose :: "behaviour \<Rightarrow> chat_service \<Rightarrow> delivery" where
  "onclose run s = notifyConnectionState run ''disconnected'' s"

text \<open>
  Vocabulary for statements about the queue: whether a send would go to the
  transport, a caller submitting sends one after another, the queue entry and
  the remote call of a submitted send, the invocations a state records, and a
  transport under which each of a list of calls, made in turn, finds the
  connection connected and resolves.
\<close>

definition is_connected :: "chat_service \<Rightarrow> bool" where
  "is_connected s =
     (case connection s of None \<Rightarrow> False | Some c \<Rightarrow> state c = Connected)"

fun send_all :: "transport \<Rightarrow> (int \<times> js_string) list \<Rightarrow> chat_service \<Rightarrow> chat_service" where
  "send_all net [] s = s"
| "send_all net ((rid, text) # sends) s = send_all net sends (snd (sendMessage net rid text s))"

definition entry :: "int \<times> js_string \<Rightarrow> queued_message" where
  "entry p = \<lparr>receiverId = fst p, content = snd p\<rparr>"

definition call_of :: "queued_message \<Rightarrow> hub_call" where
  "call_of m = SendMessage (receiverId m) (content m)"

definition invoked :: "chat_service \<Rightarrow> (hub_call \<times> bool) list" where
  "invoked s = (case connection s of None \<Rightarrow> [] | Some c \<Rightarrow> invocations c)"

fun resolves_all :: "transport \<Rightarrow> hub_connection \<Rightarrow> hub_call list \<Rightarrow> bool" where
  "resolves_all net c [] = True"
| "resolves_all net c (call # calls) =
     (state c = Connected \<and> failure (net c (Invoke call)) = None
      \<and> resolves_all net (snd (invoke net call c)) calls)"

subsection \<open>Connection state\<close>

definition getConnectionState :: "chat_service \<Rightarrow> string" where
  "getConnectionState s =
     (case connection s of
        None \<Rightarrow> ''disconnected''
      | Some c \<Rightarrow>
          (case state c of
             Connected \<Rightarrow> ''connected''
           | Connecting \<Rightarrow> ''connecting''
           | Reconnecting \<Rightarrow> ''reconnecting''
           | Disconnected \<Rightarrow> ''disconnected''
           | _ \<Rightarrow> ''unknown''))"

text \<open>The connection states of the specification's data model.\<close>

definition connection_states :: "string set" where
  "connection_states =
     {''connecting'', ''connected'', ''reconnecting'', ''disconnected'', ''error''}"

section \<open>Browser state, session store and HTTP client\<close>

text \<open>
  What the program reads and writes of the browser: \<open>localStorage\<close> and
  \<open>window.location.href\<close>.
\<close>

record browser =
  localStorage :: "string \<rightharpoonup> js_string"
  location_href :: string

definition getItem :: "string \<Rightarrow> browser \<Rightarrow> js_string option" where
  "getItem k b = localStorage b k"

definition removeItem :: "string \<Rightarrow> browser \<Rightarrow> browser" where
  "removeItem k b = b\<lparr>localStorage := (localStorage b)(k := None)\<rparr>"

subsection \<open>\<open>authService\<close>\<close>

definition logout :: "browser \<Rightarrow> browser" where
  "logout b = removeItem ''username'' (removeItem ''userId'' (removeItem ''token'' b))"

text \<open>\<open>!!localStorage.getItem('token')\<close>: \<open>null\<close> and the empty string are falsy.\<close>

definition isAuthenticated :: "browser \<Rightarrow> bool" where
  "isAuthenticated b =
     (case getItem ''token'' b of None \<Rightarrow> False | Some t \<Rightarrow> t \<noteq> [])"

subsection \<open>The axios instance \<open>api\<close> and its interceptors\<close>

text \<open>The code units of an ASCII literal.\<close>

definition utf16 :: "string \<Rightarrow> js_string" where
  "utf16 lit = map (\<lambda>c. of_nat (of_char c)) lit"

record config =
  url :: string
  verb :: string
  headers :: "string \<rightharpoonup> js_string"

record 'd response =
  status :: int
  data :: 'd

text \<open>The rejection reason of axios: \<open>error.response\<close> is absent when no response came.\<close>

record 'd axios_error =
  response :: "'d response option"

definition request_fulfilled :: "browser \<Rightarrow> config \<Rightarrow> config" where
  "request_fulfilled b cfg =
     (case getItem ''token'' b of
        None \<Rightarrow> cfg
      | Some token \<Rightarrow>
          if token \<noteq> [] then
            cfg\<lparr>headers := (headers cfg)(''Authorization'' \<mapsto> utf16 ''Bearer '' @ token)\<rparr>
          else cfg)"

text \<open>
  The response interceptor's rejection handler: its effect on the browser;
  it always ends with \<open>Promise.reject(error)\<close>.
\<close>

definition response_rejected :: "'d axios_error \<Rightarrow> browser \<Rightarrow> browser" where
  "response_rejected err b =
     (if (case response err of None \<Rightarrow> False | Some r \<Rightarrow> status r = 401) then
        (removeItem ''username'' (removeItem ''userId'' (removeItem ''token'' b)))
          \<lparr>location_href := ''/login''\<rparr>
      else b)"

text \<open>
  A request through \<open>api\<close>, as axios runs it: the request interceptor, the
  server's answer to the outgoing request, then the response interceptors;
  a status outside 200..299 rejects (axios's default \<open>validateStatus\<close>). The
  server is outside the program and is a parameter.
\<close>

datatype 'd server_reply = NoResponse | Response "'d response"

type_synonym 'd server = "config \<Rightarrow> 'd server_reply"

definition api_request ::
  "'d server \<Rightarrow> config \<Rightarrow> browser \<Rightarrow> ('d axios_error + 'd response) \<times> browser" where
  "api_request server cfg b =
     (case server (request_fulfilled b cfg) of
        NoResponse \<Rightarrow>
          (let err = \<lparr>response = None\<rparr> in (Inl err, response_rejected err b))
      | Response r \<Rightarrow>
          if 200 \<le> status r \<and> status r < 300 then (Inr r, b)
          else (let err = \<lparr>response = Some r\<rparr> in (Inl err, response_rejected err b)))"

definition api_get ::
  "'d server \<Rightarrow> string \<Rightarrow> browser \<Rightarrow> ('d axios_error + 'd response) \<times> browser" where
  "api_get server path b =
     api_request server
       \<lparr>url = path, verb = ''get'',
        headers = [''Content-Type'' \<mapsto> utf16 ''application/json'']\<rparr> b"

subsection \<open>\<open>userService\<close>\<close>

definition getAllUsers ::
  "(user list) server \<Rightarrow> browser \<Rightarrow> ((user list) axios_error + user list) \<times> browser" where
  "getAllUsers server b =
     (case api_get server ''/users'' b of
        (Inl err, b') \<Rightarrow> (Inl err, b')
      | (Inr r, b') \<Rightarrow> (Inr (data r), b'))"

section \<open>The chat page\<close>

text \<open>
  The object returned by \<open>authService.getCurrentUser()\<close>: \<open>userId\<close> is the
  result of \<open>parseInt\<close>, an integer or \<open>NaN\<close> (here \<open>None\<close>, which \<open>===\<close> makes
  unequal to every number); the other two are storage entries or \<open>null\<close>.
\<close>

record current_user =
  userId :: "int option"
  username :: "js_string option"
  token :: "js_string option"

text \<open>The page's React state.\<close>

record chat_page =
  users :: "user list"
  selectedUser :: "user option"
  messages :: "message list"
  connectionStatus :: string

definition handleUserRegistered :: "current_user \<Rightarrow> user option \<Rightarrow> chat_page \<Rightarrow> chat_page" where
  "handleUserRegistered currentUser u page =
     (case u of
        None \<Rightarrow> page
      | Some usr \<Rightarrow>
          if Some (id_user usr) = userId currentUser then page
          else
            page\<lparr>users :=
              (if list_ex (\<lambda>x. id_user x = id_user usr) (users page) then users page
               else users page @ [usr])\<rparr>)"

definition handleMessageReceived :: "message \<Rightarrow> chat_page \<Rightarrow> chat_page" where
  "handleMessageReceived m page =
     (case selectedUser page of
        None \<Rightarrow> page
      | Some activeUser \<Rightarrow>
          if senderId m = id_user activeUser \<or> receiverId_message m = id_user activeUser
          then page\<lparr>messages := messages page @ [m]\<rparr>
          else page)"

definition handleMessageSent :: "message \<Rightarrow> chat_page \<Rightarrow> chat_page" where
  "handleMessageSent m page =
     (case selectedUser page of
        None \<Rightarrow> page
      | Some activeUser \<Rightarrow>
          if receiverId_message m = id_user activeUser
          then page\<lparr>messages := messages page @ [m]\<rparr>
          else page)"

definition handleConversationHistory :: "message list \<Rightarrow> chat_page \<Rightarrow> chat_page" where
  "handleConversationHistory conversationMessages page =
     page\<lparr>messages := conversationMessages\<rparr>"

definition setConnectionStatus :: "string \<Rightarrow> chat_page \<Rightarrow> chat_page" where
  "setConnectionStatus st page = page\<lparr>connectionStatus := st\<rparr>"

text \<open>
  The listeners that \<open>initializeChat\<close> subscribes, one for each event kind:
  what the page does when the connection manager calls it with an event.
\<close>

fun deliver :: "current_user \<Rightarrow> event \<Rightarrow> chat_page \<Rightarrow> chat_page" where
  "deliver currentUser (ReceiveMessage m) = handleMessageReceived m"
| "deliver currentUser (MessageSent m) = handleMessageSent m"
| "deliver currentUser (ConversationHistory ms) = handleConversationHistory ms"
| "deliver currentUser (ConnectionStateChanged st) = setConnectionStatus st"
| "deliver currentUser (UserRegistered u) = handleUserRegistered currentUser u"

section \<open>The message composer: \<open>MessageInput\<close>\<close>

text \<open>
  \<open>String.prototype.trim\<close> removes, at both ends, the code units that
  ECMAScript calls WhiteSpace or LineTerminator.
\<close>

definition isWhiteSpace :: "16 word \<Rightarrow> bool" where
  "isWhiteSpace c =
     (c = 0x0009 \<or> c = 0x000A \<or> c = 0x000B \<or> c = 0x000C \<or> c = 0x000D \<or> c = 0x0020
      \<or> c = 0x00A0 \<or> c = 0x1680 \<or> (0x2000 \<le> c \<and> c \<le> 0x200A) \<or> c = 0x2028
      \<or> c = 0x2029 \<or> c = 0x202F \<or> c = 0x205F \<or> c = 0x3000 \<or> c = 0xFEFF)"

definition trim :: "js_string \<Rightarrow> js_string" where
  "trim str = rev (dropWhile isWhiteSpace (rev (dropWhile isWhiteSpace str)))"

text \<open>
  \<open>handleSend\<close>, given the \<open>disabled\<close> property and the composer's text:
  the argument \<open>onSendMessage\<close> is called with, if it is called, and the text
  the composer holds afterwards.
\<close>

definition handleSend :: "bool \<Rightarrow> js_string \<Rightarrow> js_string option \<times> js_string" where
  "handleSend disabled msg =
     (if trim msg \<noteq> [] \<and> \<not> disabled then (Some (trim msg), []) else (None, msg))"

record keyboard_event =
  key :: string
  shiftKey :: bool

definition handleKeyPress ::
  "keyboard_event \<Rightarrow> bool \<Rightarrow> js_string \<Rightarrow> js_string option \<times> js_string" where
  "handleKeyPress e disabled msg =
     (if key e = ''Enter'' \<and> \<not> shiftKey e then handleSend disabled msg else (None, msg))"

section \<open>Sample values\<close>

text \<open>Concrete inputs on which the statements below are exercised.\<close>

definition signed_in :: browser where
  "signed_in =
     \<lparr>localStorage =
        [''token'' \<mapsto> [0x6A, 0x77, 0x74], ''userId'' \<mapsto> [0x37],
         ''username'' \<mapsto> [0x61, 0x6E, 0x6E]],
      location_href = ''/chat''\<rparr>"

definition unauthorized :: "unit response" where
  "unauthorized = \<lparr>status = 401, data = ()\<rparr>"

definition rejecting_server :: "unit server" where
  "rejecting_server cfg = Response unauthorized"

definition users_request :: config where
  "users_request = \<lparr>url = ''/users'', verb = ''get'', headers = Map.empty\<rparr>"

definition ann :: current_user where
  "ann = \<lparr>userId = Some 7, username = Some [0x61, 0x6E, 0x6E], token = Some [0x6A, 0x77, 0x74]\<rparr>"

definition ann_announced :: user where
  "ann_announced = \<lparr>id_user = 7, username_user = [0x61, 0x6E, 0x6E]\<rparr>"

definition bob :: user where
  "bob = \<lparr>id_user = 5, username_user = [0x62, 0x6F, 0x62]\<rparr>"

definition page_with_bob :: chat_page where
  "page_with_bob =
     \<lparr>users = [bob], selectedUser = None, messages = [], connectionStatus = ''connected''\<rparr>"

definition stopping :: hub_connection where
  "stopping = \<lparr>accessToken = [0x6A, 0x77, 0x74], state = Disconnecting, invocations = []\<rparr>"

definition reconnecting :: hub_connection where
  "reconnecting = \<lparr>accessToken = [0x6A, 0x77, 0x74], state = Reconnecting, invocations = []\<rparr>"

definition live :: hub_connection where
  "live = \<lparr>accessToken = [0x6A, 0x77, 0x74], state = Connected, invocations = []\<rparr>"

definition hi :: js_string where
  "hi = [0x68, 0x69]"


text \<open>
  Three transports: one that resolves every request, one that rejects every
  request, and one that rejects only the second invocation made on a
  connection.
\<close>

definition accepting :: transport where
  "accepting c rq =
     \<lparr>failure = None, state_after = (case rq of Stop \<Rightarrow> Disconnected | _ \<Rightarrow> Connected)\<rparr>"

definition refusing :: transport where
  "refusing c rq = \<lparr>failure = Some (Error ''refused''), state_after = Disconnected\<rparr>"

definition flaky :: transport where
  "flaky c rq =
     (if length (invocations c) = 1
      then \<lparr>failure = Some (Error ''timeout''), state_after = Connected\<rparr>
      else \<lparr>failure = None, state_after = Connected\<rparr>)"

text \<open>
  Three sets of listeners: none throws or touches the service; listener 1
  throws; listener 1, called with an event, calls the handle that
  \<open>onMessageReceived\<close> returned for listener 2.
\<close>

definition silent :: behaviour where
  "silent callback e s = (Returned, s)"

definition thrower :: behaviour where
  "thrower callback e s =
     (if callback = 1 then (Threw (Error ''listener failed''), s) else (Returned, s))"


definition watched :: chat_service where
  "watched = fst (onConnectionStateChanged 1 constructor)"


definition two_offline :: chat_service where
  "two_offline = send_all refusing [(5, hi), (6, [])] constructor"

definition three_queued :: chat_service where
  "three_queued =
     constructor
       \<lparr>connection := Some live,
        messageQueue :=
          [\<lparr>receiverId = 5, content = hi\<rparr>, \<lparr>receiverId = 6, content = hi\<rparr>,
           \<lparr>receiverId = 7, content = hi\<rparr>]\<rparr>"

section \<open>Properties of the session store and the HTTP client\<close>

text \<open>
  C10. \<open>isAuthenticated()\<close> is true exactly when storage holds a non-empty
  \<open>token\<close> entry; the \<open>userId\<close> and \<open>username\<close> entries, present or absent,
  make no difference; and after \<open>logout()\<close>, which removes all three keys, it
  is false.
\<close>

theorem isAuthenticated_token_only:
  "(isAuthenticated b \<longleftrightarrow> (\<exists>t. localStorage b ''token'' = Some t \<and> t \<noteq> []))
   \<and> isAuthenticated
        (b\<lparr>localStorage := (localStorage b)(''userId'' := u, ''username'' := n)\<rparr>)
       = isAuthenticated b
   \<and> \<not> isAuthenticated (logout b)
   \<and> localStorage (logout b) ''token'' = None
   \<and> localStorage (logout b) ''userId'' = None
   \<and> localStorage (logout b) ''username'' = None"
  by (auto simp: isAuthenticated_def getItem_def logout_def removeItem_def split: option.splits)

theorem isAuthenticated_token_only_witness:
  "isAuthenticated signed_in \<and> \<not> isAuthenticated (logout signed_in)
   \<and> isAuthenticated
        (signed_in\<lparr>localStorage := (localStorage signed_in)(''userId'' := None, ''username'' := None)\<rparr>)"
  using isAuthenticated_token_only [of signed_in None None]
  by (simp add: signed_in_def)

lemma response_rejected_401:
  "status r = 401 \<Longrightarrow>
   localStorage (response_rejected \<lparr>response = Some r\<rparr> b) =
     (localStorage b)(''token'' := None, ''userId'' := None, ''username'' := None)
   \<and> location_href (response_rejected \<lparr>response = Some r\<rparr> b) = ''/login''"
  by (simp add: response_rejected_def removeItem_def)

text \<open>
  C6. Whatever request goes through \<open>api\<close>, and whatever page the browser is
  on, a response with status 401 makes the call fail with that response,
  removes the three storage keys \<open>token\<close>, \<open>userId\<close> and \<open>username\<close>, and sets
  the location to \<open>/login\<close>.
\<close>

theorem unauthorized_clears_session:
  assumes "server (request_fulfilled b cfg) = Response r" and "status r = 401"
  shows "fst (api_request server cfg b) = Inl \<lparr>response = Some r\<rparr>
    \<and> localStorage (snd (api_request server cfg b)) ''token'' = None
    \<and> localStorage (snd (api_request server cfg b)) ''userId'' = None
    \<and> localStorage (snd (api_request server cfg b)) ''username'' = None
    \<and> location_href (snd (api_request server cfg b)) = ''/login''"
  using assms response_rejected_401 [of r b]
  by (simp add: api_request_def Let_def)

theorem unauthorized_clears_session_witness:
  "rejecting_server (request_fulfilled signed_in users_request) = Response unauthorized
   \<and> status unauthorized = 401
   \<and> localStorage signed_in ''token'' \<noteq> None
   \<and> location_href signed_in = ''/chat''
   \<and> localStorage (snd (api_request rejecting_server users_request signed_in)) ''token'' = None
   \<and> localStorage (snd (api_request rejecting_server users_request signed_in)) ''userId'' = None
   \<and> localStorage (snd (api_request rejecting_server users_request signed_in)) ''username'' = None
   \<and> location_href (snd (api_request rejecting_server users_request signed_in)) = ''/login''"
  using unauthorized_clears_session
    [of rejecting_server signed_in users_request unauthorized]
  by (simp add: rejecting_server_def unauthorized_def signed_in_def)

section \<open>Properties of the chat page and the composer\<close>

text \<open>
  C8. When a \<open>UserRegistered\<close> event carries a user whose id equals the
  session's own \<open>userId\<close>, the page's state, and so its user directory, is
  left unchanged.
\<close>

theorem self_announcement_ignored:
  assumes "userId currentUser = Some (id_user u)"
  shows "deliver currentUser (UserRegistered (Some u)) page = page
    \<and> users (deliver currentUser (UserRegistered (Some u)) page) = users page"
  using assms by (simp add: handleUserRegistered_def)

theorem self_announcement_ignored_witness:
  "userId ann = Some (id_user ann_announced)
   \<and> users (deliver ann (UserRegistered (Some ann_announced)) page_with_bob) = [bob]"
  using self_announcement_ignored [of ann ann_announced page_with_bob]
  by (simp add: ann_def ann_announced_def page_with_bob_def)

lemma trim_ends:
  assumes "trim str \<noteq> []"
  shows "\<not> isWhiteSpace (hd (trim str)) \<and> \<not> isWhiteSpace (last (trim str))"
proof -
  let ?ys = "dropWhile isWhiteSpace str"
  let ?zs = "dropWhile isWhiteSpace (rev ?ys)"
  from assms have zs: "?zs \<noteq> []" by (simp add: trim_def)
  have ys: "?ys \<noteq> []"
  proof
    assume "?ys = []"
    then have "?zs = []" by (simp only: rev.simps dropWhile.simps)
    with zs show False by simp
  qed
  have "last (trim str) = hd ?zs" using zs by (simp add: trim_def last_rev)
  moreover have "\<not> isWhiteSpace (hd ?zs)" using zs by (rule hd_dropWhile)
  moreover have "hd (trim str) = last ?zs" using zs by (simp add: trim_def hd_rev)
  moreover have "last ?zs = last (rev ?ys)"
    using zs by (metis last_appendR takeWhile_dropWhile_id)
  moreover have "last (rev ?ys) = hd ?ys" using ys by (simp add: last_rev)
  moreover have "\<not> isWhiteSpace (hd ?ys)" using ys by (rule hd_dropWhile)
  ultimately show ?thesis by simp
qed

lemma trim_empty_iff: "trim str = [] \<longleftrightarrow> list_all isWhiteSpace str"
proof
  assume "trim str = []"
  then have z: "dropWhile isWhiteSpace (rev (dropWhile isWhiteSpace str)) = []"
    by (simp add: trim_def)
  have "dropWhile isWhiteSpace str = []"
  proof (rule ccontr)
    assume ne: "dropWhile isWhiteSpace str \<noteq> []"
    then have "\<not> isWhiteSpace (hd (dropWhile isWhiteSpace str))" by (rule hd_dropWhile)
    moreover have "hd (dropWhile isWhiteSpace str) \<in> set (rev (dropWhile isWhiteSpace str))"
      using ne by simp
    ultimately show False using z by (metis dropWhile_eq_Nil_conv)
  qed
  then show "list_all isWhiteSpace str"
    by (induction str) (simp_all split: if_splits)
next
  assume "list_all isWhiteSpace str"
  then have "dropWhile isWhiteSpace str = []"
    by (induction str) simp_all
  then show "trim str = []" by (simp only: trim_def rev.simps dropWhile.simps)
qed

lemma trim_not_blank: "trim str \<noteq> [] \<Longrightarrow> \<not> list_all isWhiteSpace (trim str)"
  using trim_ends [of str] by (cases "trim str") auto

text \<open>
  C9. For every text in the composer, \<open>handleSend\<close> calls \<open>onSendMessage\<close>
  exactly when the trimmed text is non-empty and the composer is not disabled;
  the value passed is the trimmed text, which is neither empty nor made of
  white space only; a text of white space only is never sent. The same holds
  when \<open>handleSend\<close> is reached through the Enter key.
\<close>

theorem handleSend_trimmed_nonempty:
  "(fst (handleSend disabled msg) \<noteq> None \<longleftrightarrow> trim msg \<noteq> [] \<and> \<not> disabled)
   \<and> (\<forall>v. fst (handleSend disabled msg) = Some v \<longrightarrow>
        v = trim msg \<and> v \<noteq> [] \<and> \<not> list_all isWhiteSpace v \<and> \<not> disabled)
   \<and> (list_all isWhiteSpace msg \<longrightarrow> fst (handleSend disabled msg) = None)
   \<and> (\<forall>v. fst (handleKeyPress e disabled msg) = Some v \<longrightarrow>
        v = trim msg \<and> v \<noteq> [] \<and> \<not> list_all isWhiteSpace v \<and> \<not> disabled)"
  using trim_not_blank [of msg] trim_empty_iff [of msg]
  by (auto simp: handleSend_def handleKeyPress_def)

theorem handleSend_trimmed_nonempty_witness:
  "fst (handleSend False [0x20, 0x68, 0x69, 0x0A]) = Some [0x68, 0x69]
   \<and> trim [0x20, 0x68, 0x69, 0x0A] = [0x68, 0x69]
   \<and> list_all isWhiteSpace [0x20, 0x2003, 0x09]
   \<and> fst (handleSend False [0x20, 0x2003, 0x09]) = None
   \<and> fst (handleSend True [0x68, 0x69]) = None"
proof -
  have t: "trim [0x20, 0x68, 0x69, 0x0A] = [0x68, 0x69]"
    by (simp add: trim_def isWhiteSpace_def)
  have w: "list_all isWhiteSpace [0x20, 0x2003, 0x09]"
    by (simp add: isWhiteSpace_def)
  have "fst (handleSend False [0x20, 0x68, 0x69, 0x0A]) \<noteq> None"
    using handleSend_trimmed_nonempty [of False "[0x20, 0x68, 0x69, 0x0A]"] t by simp
  then have a: "fst (handleSend False [0x20, 0x68, 0x69, 0x0A]) = Some [0x68, 0x69]"
    using handleSend_trimmed_nonempty [of False "[0x20, 0x68, 0x69, 0x0A]"] t by auto
  have b: "fst (handleSend False [0x20, 0x2003, 0x09]) = None"
    using handleSend_trimmed_nonempty [of False "[0x20, 0x2003, 0x09]"] w by blast
  have c: "fst (handleSend True [0x68, 0x69]) = None"
    using handleSend_trimmed_nonempty [of True "[0x68, 0x69]"] by blast
  from a t w b c show ?thesis by blast
qed

section \<open>Properties of the connection manager\<close>

text \<open>
  C4. The delay before a retry, asked for with the number of retries already
  made: none before the first retry, 2000 ms before the second, 10000 ms
  before the third, and 30000 ms before the fourth and every later one.
\<close>

theorem backoff_schedule:
  "nextRetryDelayInMilliseconds \<lparr>previousRetryCount = 0, elapsedMilliseconds = t\<rparr> = 0
   \<and> nextRetryDelayInMilliseconds \<lparr>previousRetryCount = 1, elapsedMilliseconds = t\<rparr> = 2000
   \<and> nextRetryDelayInMilliseconds \<lparr>previousRetryCount = 2, elapsedMilliseconds = t\<rparr> = 10000
   \<and> (\<forall>k. 3 \<le> k \<longrightarrow>
        nextRetryDelayInMilliseconds \<lparr>previousRetryCount = k, elapsedMilliseconds = t\<rparr> = 30000)"
  by (simp add: nextRetryDelayInMilliseconds_def)

theorem backoff_schedule_witness:
  "(3::int) \<le> 7 \<and>
   nextRetryDelayInMilliseconds \<lparr>previousRetryCount = 7, elapsedMilliseconds = 45000\<rparr> = 30000
   \<and> nextRetryDelayInMilliseconds \<lparr>previousRetryCount = 0, elapsedMilliseconds = 45000\<rparr> = 0"
  using backoff_schedule [of 45000] by simp

text \<open>
  C3, as the specification states it, fails: while the transport is in its
  \<open>Disconnecting\<close> state, \<open>getConnectionState()\<close> returns \<open>unknown\<close>, which is
  not one of the five connection states.
\<close>

theorem getConnectionState_unknown_counterexample:
  "getConnectionState (constructor\<lparr>connection := Some stopping\<rparr>) = ''unknown''
   \<and> ''unknown'' \<notin> connection_states"
  by (simp add: getConnectionState_def connection_states_def stopping_def)

text \<open>
  C3, amended. \<open>getConnectionState()\<close> returns one of \<open>connecting\<close>,
  \<open>connected\<close>, \<open>reconnecting\<close>, \<open>disconnected\<close> and \<open>unknown\<close>, never \<open>error\<close>:
  \<open>disconnected\<close> when there is no connection object, the namesake of the
  transport's state when that is one of the four the code names, and
  \<open>unknown\<close> for any other transport state.
\<close>

theorem getConnectionState_values:
  "getConnectionState s \<in>
     {''connecting'', ''connected'', ''reconnecting'', ''disconnected'', ''unknown''}
   \<and> getConnectionState s \<noteq> ''error''
   \<and> (connection s = None \<longrightarrow> getConnectionState s = ''disconnected'')
   \<and> (\<forall>c. connection s = Some c \<longrightarrow>
        getConnectionState s =
          (if state c = Connected then ''connected''
           else if state c = Connecting then ''connecting''
           else if state c = Reconnecting then ''reconnecting''
           else if state c = Disconnected then ''disconnected''
           else ''unknown''))"
  by (auto simp: getConnectionState_def split: option.splits HubConnectionState.splits)

theorem getConnectionState_values_witness:
  "connection constructor = None \<and> getConnectionState constructor = ''disconnected''
   \<and> connection (constructor\<lparr>connection := Some reconnecting\<rparr>) = Some reconnecting
   \<and> getConnectionState (constructor\<lparr>connection := Some reconnecting\<rparr>) = ''reconnecting''"
  using getConnectionState_values [of constructor]
    getConnectionState_values [of "constructor\<lparr>connection := Some reconnecting\<rparr>"]
  by (simp add: constructor_def reconnecting_def)

subsection \<open>Listeners\<close>


lemma forEach_returned:
  "outcome (forEach_callback run cbs e s) = Returned \<Longrightarrow>
   called (forEach_callback run cbs e s) = map (\<lambda>c. (c, e)) cbs"
proof (induction cbs arbitrary: s)
  case Nil
  show ?case by simp
next
  case (Cons cb cbs)
  obtain r s' where st: "run cb e s = (r, s')" by (cases "run cb e s")
  show ?case
  proof (cases r)
    case Returned
    with st Cons.prems Cons.IH [of s'] show ?thesis by (simp add: Let_def)
  next
    case (Threw err)
    with st Cons.prems show ?thesis by simp
  qed
qed


lemma forEach_quiet:
  "\<forall>c \<in> set cbs. \<forall>u. fst (run c e u) = Returned \<Longrightarrow>
   outcome (forEach_callback run cbs e s) = Returned"
proof (induction cbs arbitrary: s)
  case Nil
  show ?case by simp
next
  case (Cons cb cbs)
  obtain r s' where st: "run cb e s = (r, s')" by (cases "run cb e s")
  from Cons.prems have "fst (run cb e s) = Returned" by simp
  with st have r: "r = Returned" by simp
  from Cons.prems have "\<forall>c \<in> set cbs. \<forall>u. fst (run c e u) = Returned" by simp
  from Cons.IH [OF this, of s'] st r show ?case by (simp add: Let_def)
qed













lemma sendMessage_returns: "fst (sendMessage net rid body s) = Returned"
  by (simp add: sendMessage_def split: option.splits prod.splits completion.splits)

lemma resend_returns: "fst (resend net queue s) = Returned"
proof (induction queue arbitrary: s)
  case Nil
  show ?case by simp
next
  case (Cons m queue)
  obtain r s1 where st: "sendMessage net (receiverId m) (content m) s = (r, s1)"
    by (cases "sendMessage net (receiverId m) (content m) s")
  then have "r = Returned" using sendMessage_returns [of net "receiverId m" "content m" s] by simp
  with st Cons.IH [of s1] show ?case by simp
qed

lemma flushMessageQueue_returns: "fst (flushMessageQueue net s) = Returned"
  by (simp add: flushMessageQueue_def resend_returns Let_def)

subsection \<open>Offline queue and flush\<close>

lemma sendMessage_offline:
  "\<not> is_connected s \<Longrightarrow>
   sendMessage net rid text s =
     (Returned, s\<lparr>messageQueue := messageQueue s @ [entry (rid, text)]\<rparr>)"
  by (simp add: sendMessage_def is_connected_def entry_def split: option.splits)

lemma send_all_offline:
  "\<not> is_connected s \<Longrightarrow>
   send_all net sends s = s\<lparr>messageQueue := messageQueue s @ map entry sends\<rparr>"
proof (induction sends arbitrary: s)
  case Nil
  then show ?case by simp
next
  case (Cons p sends)
  obtain rid body where p: "p = (rid, body)" by (cases p)
  let ?s1 = "s\<lparr>messageQueue := messageQueue s @ [entry (rid, body)]\<rparr>"
  have off: "\<not> is_connected ?s1" using Cons.prems by (simp add: is_connected_def)
  show ?case
    using Cons.IH [OF off] Cons.prems by (simp add: p sendMessage_offline)
qed

lemma sendMessage_resolved:
  assumes "connection s = Some c" and "state c = Connected"
    and "failure (net c (Invoke (SendMessage rid text))) = None"
  shows "sendMessage net rid text s =
     (Returned, s\<lparr>connection := Some (snd (invoke net (SendMessage rid text) c))\<rparr>)"
  using assms by (simp add: sendMessage_def invoke_def Let_def)

lemma resend_resolves_all:
  assumes "connection s = Some c" and "resolves_all net c (map call_of queue)"
  shows "\<exists>c'. resend net queue s = (Returned, s\<lparr>connection := Some c'\<rparr>)
     \<and> invocations c' = invocations c @ map (\<lambda>m. (call_of m, True)) queue"
  using assms
proof (induction queue arbitrary: s c)
  case Nil
  then show ?case by (intro exI [of _ c]) simp
next
  case (Cons m queue)
  let ?call = "SendMessage (receiverId m) (content m)"
  let ?c1 = "snd (invoke net ?call c)"
  let ?s1 = "s\<lparr>connection := Some ?c1\<rparr>"
  have cm: "call_of m = ?call" by (simp add: call_of_def)
  from Cons.prems(2) have "resolves_all net c (call_of m # map call_of queue)" by simp
  then have st: "state c = Connected"
    and ok: "failure (net c (Invoke ?call)) = None"
    and rest: "resolves_all net ?c1 (map call_of queue)"
    unfolding cm by simp_all
  have step: "sendMessage net (receiverId m) (content m) s = (Returned, ?s1)"
    using Cons.prems(1) st ok by (rule sendMessage_resolved)
  have "connection ?s1 = Some ?c1" by simp
  from Cons.IH [OF this rest] obtain c' where
    r: "resend net queue ?s1 = (Returned, ?s1\<lparr>connection := Some c'\<rparr>)"
    and i: "invocations c' = invocations ?c1 @ map (\<lambda>m. (call_of m, True)) queue"
    by blast
  have inv1: "invocations ?c1 = invocations c @ [(call_of m, True)]"
    using ok by (simp add: invoke_def Let_def cm)
  show ?case
    using step r i inv1 by (intro exI [of _ c']) simp
qed

lemma flush_resolves_all:
  assumes "connection s = Some c" and "resolves_all net c (map call_of (messageQueue s))"
  shows "fst (flushMessageQueue net s) = Returned
     \<and> messageQueue (snd (flushMessageQueue net s)) = []
     \<and> invoked (snd (flushMessageQueue net s)) =
         invocations c @ map (\<lambda>m. (call_of m, True)) (messageQueue s)"
proof (cases "messageQueue s = []")
  case True
  then show ?thesis using assms(1) by (simp add: flushMessageQueue_def invoked_def)
next
  case False
  let ?s0 = "s\<lparr>messageQueue := []\<rparr>"
  have "connection ?s0 = Some c" using assms(1) by simp
  from resend_resolves_all [OF this assms(2)] obtain c' where
    r: "resend net (messageQueue s) ?s0 = (Returned, ?s0\<lparr>connection := Some c'\<rparr>)"
    and i: "invocations c' = invocations c @ map (\<lambda>m. (call_of m, True)) (messageQueue s)"
    by blast
  show ?thesis using False r i by (simp add: flushMessageQueue_def invoked_def)
qed

text \<open>
  C1. Starting from an empty queue, sends submitted one after another while the
  manager is not connected leave the queue holding exactly one entry
  \<open>{receiverId, content}\<close> for each send, in the order of submission, and
  invoke nothing. When a flush follows on a connection under which every
  resend finds the connection connected and resolves, the flush returns, the
  queue is empty afterwards, and exactly those sends were invoked remotely as
  \<open>SendMessage\<close>, in the order of submission.
\<close>

theorem offline_sends_queue_then_flush:
  assumes "\<not> is_connected s" and "messageQueue s = []"
    and "messageQueue s2 = messageQueue (send_all net sends s)"
    and "connection s2 = Some c"
    and "resolves_all net2 c (map (\<lambda>p. SendMessage (fst p) (snd p)) sends)"
  shows "messageQueue (send_all net sends s) = map entry sends
    \<and> length (messageQueue (send_all net sends s)) = length sends
    \<and> invoked (send_all net sends s) = invoked s
    \<and> fst (flushMessageQueue net2 s2) = Returned
    \<and> messageQueue (snd (flushMessageQueue net2 s2)) = []
    \<and> invoked (snd (flushMessageQueue net2 s2)) =
        invocations c @ map (\<lambda>p. (SendMessage (fst p) (snd p), True)) sends"
proof -
  have q: "messageQueue (send_all net sends s) = map entry sends"
    using assms(1,2) by (simp add: send_all_offline)
  have i: "invoked (send_all net sends s) = invoked s"
    using assms(1) by (simp add: send_all_offline invoked_def)
  have m: "map call_of (messageQueue s2) = map (\<lambda>p. SendMessage (fst p) (snd p)) sends"
    using assms(3) q by (simp add: call_of_def entry_def comp_def)
  have r: "resolves_all net2 c (map call_of (messageQueue s2))"
    using assms(5) m by simp
  have m2: "map (\<lambda>m. (call_of m, True)) (messageQueue s2) =
      map (\<lambda>p. (SendMessage (fst p) (snd p), True)) sends"
    using assms(3) q by (simp add: call_of_def entry_def comp_def)
  show ?thesis
    using flush_resolves_all [OF assms(4) r] q i m2 by simp
qed

theorem offline_sends_queue_then_flush_witness:
  "\<not> is_connected constructor \<and> messageQueue constructor = []
   \<and> resolves_all accepting live [SendMessage 5 hi, SendMessage 6 []]
   \<and> messageQueue two_offline = [\<lparr>receiverId = 5, content = hi\<rparr>, \<lparr>receiverId = 6, content = []\<rparr>]
   \<and> invoked two_offline = []
   \<and> messageQueue (snd (flushMessageQueue accepting (two_offline\<lparr>connection := Some live\<rparr>))) = []
   \<and> invoked (snd (flushMessageQueue accepting (two_offline\<lparr>connection := Some live\<rparr>))) =
       [(SendMessage 5 hi, True), (SendMessage 6 [], True)]"
proof -
  have h1: "\<not> is_connected constructor" by (simp add: is_connected_def constructor_def)
  have h2: "messageQueue constructor = []" by (simp add: constructor_def)
  have h3: "messageQueue (two_offline\<lparr>connection := Some live\<rparr>) =
      messageQueue (send_all refusing [(5, hi), (6, [])] constructor)"
    by (simp add: two_offline_def)
  have h4: "connection (two_offline\<lparr>connection := Some live\<rparr>) = Some live" by simp
  have h5: "resolves_all accepting live (map (\<lambda>p. SendMessage (fst p) (snd p)) [(5, hi), (6, [])])"
    by (simp add: accepting_def live_def invoke_def Let_def)
  have i0: "invoked constructor = []" by (simp add: invoked_def constructor_def)
  have l0: "invocations live = []" by (simp add: live_def)
  from offline_sends_queue_then_flush [OF h1 h2 h3 h4 h5] h1 h2 h5 i0 l0
  show ?thesis by (simp add: two_offline_def entry_def)
qed

lemma sendMessage_cases:
  "\<exists>s'. sendMessage net rid body s = (Returned, s')
     \<and> ((messageQueue s' = messageQueue s @ [entry (rid, body)] \<and> invoked s' = invoked s)
        \<or> (messageQueue s' = messageQueue s
            \<and> invoked s' = invoked s @ [(SendMessage rid body, True)])
        \<or> (messageQueue s' = messageQueue s @ [entry (rid, body)]
            \<and> invoked s' = invoked s @ [(SendMessage rid body, False)]))"
proof (cases "connection s")
  case None
  then show ?thesis by (simp add: sendMessage_def entry_def invoked_def)
next
  case (Some c)
  show ?thesis
  proof (cases "state c = Connected")
    case False
    with Some show ?thesis by (simp add: sendMessage_def entry_def invoked_def)
  next
    case True
    show ?thesis
    proof (cases "failure (net c (Invoke (SendMessage rid body)))")
      case None
      with Some True show ?thesis
        by (simp add: sendMessage_def entry_def invoked_def invoke_def Let_def)
    next
      case (Some e)
      with \<open>connection s = Some c\<close> True show ?thesis
        by (simp add: sendMessage_def entry_def invoked_def invoke_def Let_def)
    qed
  qed
qed

lemma resend_accounting:
  "\<exists>s' requeued new. resend net queue s = (Returned, s')
     \<and> messageQueue s' = messageQueue s @ requeued
     \<and> invoked s' = invoked s @ new
     \<and> mset (map call_of requeued) + mset (map fst (filter snd new)) = mset (map call_of queue)
     \<and> subseq requeued queue
     \<and> subseq (map fst new) (map call_of queue)
     \<and> (\<forall>x \<in> set new. \<not> snd x \<longrightarrow> fst x \<in> call_of ` set requeued)"
proof (induction queue arbitrary: s)
  case Nil
  show ?case by simp
next
  case (Cons m queue)
  have em: "entry (receiverId m, content m) = m" by (simp add: entry_def)
  have cm: "SendMessage (receiverId m) (content m) = call_of m" by (simp add: call_of_def)
  from sendMessage_cases [of net "receiverId m" "content m" s] obtain s1 where
    step: "sendMessage net (receiverId m) (content m) s = (Returned, s1)"
    and alt: "(messageQueue s1 = messageQueue s @ [m] \<and> invoked s1 = invoked s)
        \<or> (messageQueue s1 = messageQueue s \<and> invoked s1 = invoked s @ [(call_of m, True)])
        \<or> (messageQueue s1 = messageQueue s @ [m]
            \<and> invoked s1 = invoked s @ [(call_of m, False)])"
    unfolding em cm by blast
  from Cons.IH [of s1] obtain s' requeued new where
    r: "resend net queue s1 = (Returned, s')"
    and q: "messageQueue s' = messageQueue s1 @ requeued"
    and i: "invoked s' = invoked s1 @ new"
    and ms: "mset (map call_of requeued) + mset (map fst (filter snd new)) =
        mset (map call_of queue)"
    and sq: "subseq requeued queue"
    and si: "subseq (map fst new) (map call_of queue)"
    and fl: "\<forall>x \<in> set new. \<not> snd x \<longrightarrow> fst x \<in> call_of ` set requeued"
    by blast
  have whole: "resend net (m # queue) s = (Returned, s')" using step r by simp
  from alt consider
      (offline) "messageQueue s1 = messageQueue s @ [m]" "invoked s1 = invoked s"
    | (sent) "messageQueue s1 = messageQueue s" "invoked s1 = invoked s @ [(call_of m, True)]"
    | (failed) "messageQueue s1 = messageQueue s @ [m]"
        "invoked s1 = invoked s @ [(call_of m, False)]"
    by blast
  then show ?case
  proof cases
    case offline
    show ?thesis
      apply (intro exI [of _ s'] exI [of _ "m # requeued"] exI [of _ new])
      using whole q i ms sq si fl offline by (auto simp: subseq_Cons')
  next
    case sent
    show ?thesis
      apply (intro exI [of _ s'] exI [of _ requeued] exI [of _ "(call_of m, True) # new"])
      using whole q i ms sq si fl sent by (auto simp: subseq_Cons')
  next
    case failed
    show ?thesis
      apply (intro exI [of _ s'] exI [of _ "m # requeued"] exI [of _ "(call_of m, False) # new"])
      using whole q i ms sq si fl failed by (auto simp: subseq_Cons')
  qed
qed

lemma entry_of_queued: "entry (receiverId m, content m) = m"
  by (simp add: entry_def)

lemma resend_send_all:
  "resend net queue s =
     (Returned, send_all net (map (\<lambda>m. (receiverId m, content m)) queue) s)"
proof (induction queue arbitrary: s)
  case Nil
  show ?case by simp
next
  case (Cons m queue)
  obtain r s1 where st: "sendMessage net (receiverId m) (content m) s = (r, s1)"
    by (cases "sendMessage net (receiverId m) (content m) s")
  then have "r = Returned" using sendMessage_returns [of net "receiverId m" "content m" s] by simp
  with st Cons.IH [of s1] show ?case by simp
qed

lemma flush_send_all:
  "flushMessageQueue net s =
     (Returned,
      send_all net (map (\<lambda>m. (receiverId m, content m)) (messageQueue s))
        (s\<lparr>messageQueue := []\<rparr>))"
proof (cases "messageQueue s = []")
  case True
  then have "s\<lparr>messageQueue := []\<rparr> = s" by simp
  with True show ?thesis by (simp add: flushMessageQueue_def)
next
  case False
  then show ?thesis by (simp add: flushMessageQueue_def resend_send_all)
qed

lemma flush_offline:
  assumes "\<not> is_connected s"
  shows "flushMessageQueue net s = (Returned, s)"
proof -
  have off: "\<not> is_connected (s\<lparr>messageQueue := []\<rparr>)"
    using assms by (simp add: is_connected_def)
  have "map entry (map (\<lambda>m. (receiverId m, content m)) (messageQueue s)) = messageQueue s"
    by (simp add: comp_def entry_of_queued)
  then show ?thesis
    by (simp add: flush_send_all send_all_offline [OF off])
qed

lemma resend_attempts_all:
  assumes "\<forall>c call. state_after (net c (Invoke call)) = Connected"
    and "connection s = Some c" and "state c = Connected"
  shows "\<exists>c'. connection (snd (resend net queue s)) = Some c' \<and> state c' = Connected
     \<and> map fst (invocations c') = map fst (invocations c) @ map call_of queue"
  using assms(2,3)
proof (induction queue arbitrary: s c)
  case Nil
  then show ?case by simp
next
  case (Cons m queue)
  let ?c1 = "snd (invoke net (call_of m) c)"
  obtain r s1 where st: "sendMessage net (receiverId m) (content m) s = (r, s1)"
    by (cases "sendMessage net (receiverId m) (content m) s")
  then have r: "r = Returned"
    using sendMessage_returns [of net "receiverId m" "content m" s] by simp
  have c1: "connection s1 = Some ?c1"
    using st Cons.prems
    by (auto simp: sendMessage_def call_of_def split: prod.splits completion.splits)
  have s1: "state ?c1 = Connected"
    using assms(1) by (simp add: invoke_def Let_def)
  have i1: "map fst (invocations ?c1) = map fst (invocations c) @ [call_of m]"
    by (simp add: invoke_def Let_def)
  from Cons.IH [OF c1 s1] obtain c' where
    "connection (snd (resend net queue s1)) = Some c'" "state c' = Connected"
    "map fst (invocations c') = map fst (invocations ?c1) @ map call_of queue"
    by blast
  with st r i1 show ?case by simp
qed

lemma flush_attempts_all:
  assumes "is_connected s" and "\<forall>c call. state_after (net c (Invoke call)) = Connected"
  shows "map fst (drop (length (invoked s)) (invoked (snd (flushMessageQueue net s)))) =
     map call_of (messageQueue s)"
proof (cases "messageQueue s = []")
  case True
  then show ?thesis by (simp add: flushMessageQueue_def)
next
  case False
  from assms(1) obtain c where c: "connection s = Some c" "state c = Connected"
    by (auto simp: is_connected_def split: option.splits)
  have c0: "connection (s\<lparr>messageQueue := []\<rparr>) = Some c" using c by simp
  from resend_attempts_all [OF assms(2) c0 c(2), of "messageQueue s"] obtain c' where
    c': "connection (snd (resend net (messageQueue s) (s\<lparr>messageQueue := []\<rparr>))) = Some c'"
    and i: "map fst (invocations c') = map fst (invocations c) @ map call_of (messageQueue s)"
    by blast
  have "map fst (drop (length (invocations c)) (invocations c')) =
      drop (length (map fst (invocations c))) (map fst (invocations c'))"
    by (simp add: drop_map)
  also have "\<dots> = map call_of (messageQueue s)" unfolding i by simp
  finally show ?thesis
    using False c c' by (simp add: flushMessageQueue_def invoked_def)
qed

text \<open>
  C5. Whatever the transport does, a flush returns, and what it leaves is
  what clearing the queue and then sending each entry of the snapshot again
  with \<open>sendMessage\<close>, in the original order, leaves. Nothing is lost: the
  queue afterwards and the resends that resolved are together exactly the
  entries queued before, each once; the entries left in the queue and the
  remote invocations made both follow the original order; every resend that
  was rejected is back in the queue; every entry queued before is either in
  the queue afterwards or was invoked and resolved. When the connection is
  connected and stays so, every entry is invoked remotely, in the original
  order; when it is not connected, every entry is back in the queue and
  nothing is invoked. A flush of an empty queue changes nothing and invokes
  nothing.
\<close>

theorem flush_loses_no_message:
  "flushMessageQueue net s =
     (Returned,
      send_all net (map (\<lambda>m. (receiverId m, content m)) (messageQueue s))
        (s\<lparr>messageQueue := []\<rparr>))
   \<and> (is_connected s \<and> (\<forall>c call. state_after (net c (Invoke call)) = Connected) \<longrightarrow>
        map fst (drop (length (invoked s)) (invoked (snd (flushMessageQueue net s)))) =
          map call_of (messageQueue s))
   \<and> (\<not> is_connected s \<longrightarrow> flushMessageQueue net s = (Returned, s))
   \<and> fst (flushMessageQueue net s) = Returned
   \<and> take (length (invoked s)) (invoked (snd (flushMessageQueue net s))) = invoked s
   \<and> mset (map call_of (messageQueue (snd (flushMessageQueue net s))))
       + mset (map fst (filter snd
           (drop (length (invoked s)) (invoked (snd (flushMessageQueue net s))))))
       = mset (map call_of (messageQueue s))
   \<and> subseq (messageQueue (snd (flushMessageQueue net s))) (messageQueue s)
   \<and> subseq (map fst (drop (length (invoked s)) (invoked (snd (flushMessageQueue net s)))))
        (map call_of (messageQueue s))
   \<and> (\<forall>x \<in> set (drop (length (invoked s)) (invoked (snd (flushMessageQueue net s)))).
        \<not> snd x \<longrightarrow> fst x \<in> call_of ` set (messageQueue (snd (flushMessageQueue net s))))
   \<and> (\<forall>m \<in> set (messageQueue s).
        m \<in> set (messageQueue (snd (flushMessageQueue net s)))
        \<or> (call_of m, True)
            \<in> set (drop (length (invoked s)) (invoked (snd (flushMessageQueue net s)))))
   \<and> (messageQueue s = [] \<longrightarrow> flushMessageQueue net s = (Returned, s))"
proof (cases "messageQueue s = []")
  case True
  have "s\<lparr>messageQueue := []\<rparr> = s" using True by simp
  with True show ?thesis by (simp add: flushMessageQueue_def)
next
  case False
  let ?s0 = "s\<lparr>messageQueue := []\<rparr>"
  from resend_accounting [of net "messageQueue s" ?s0] obtain s' requeued new where
    r: "resend net (messageQueue s) ?s0 = (Returned, s')"
    and q: "messageQueue s' = requeued"
    and i: "invoked s' = invoked s @ new"
    and ms: "mset (map call_of requeued) + mset (map fst (filter snd new)) =
        mset (map call_of (messageQueue s))"
    and sq: "subseq requeued (messageQueue s)"
    and si: "subseq (map fst new) (map call_of (messageQueue s))"
    and fl: "\<forall>x \<in> set new. \<not> snd x \<longrightarrow> fst x \<in> call_of ` set requeued"
    by (auto simp: invoked_def)
  have f: "flushMessageQueue net s = (Returned, s')"
    using False r by (simp add: flushMessageQueue_def)
  have inj: "inj call_of"
    by (rule injI) (simp add: call_of_def)
  have each: "\<forall>m \<in> set (messageQueue s). m \<in> set requeued \<or> (call_of m, True) \<in> set new"
  proof
    fix m assume "m \<in> set (messageQueue s)"
    then have "call_of m \<in># mset (map call_of (messageQueue s))" by simp
    then have "call_of m \<in># mset (map call_of requeued)
        \<or> call_of m \<in># mset (map fst (filter snd new))"
      unfolding ms [symmetric] by simp
    then show "m \<in> set requeued \<or> (call_of m, True) \<in> set new"
    proof
      assume "call_of m \<in># mset (map call_of requeued)"
      then have "m \<in> set requeued" using inj by (auto simp: inj_def)
      then show ?thesis ..
    next
      assume "call_of m \<in># mset (map fst (filter snd new))"
      then have "(call_of m, True) \<in> set new" by auto
      then show ?thesis ..
    qed
  qed
  have pin: "(Returned, s') =
     (Returned,
      send_all net (map (\<lambda>m. (receiverId m, content m)) (messageQueue s))
        (s\<lparr>messageQueue := []\<rparr>))"
    using flush_send_all [of net s] f by simp
  have att: "is_connected s \<and> (\<forall>c call. state_after (net c (Invoke call)) = Connected) \<longrightarrow>
        map fst (drop (length (invoked s)) (invoked s')) = map call_of (messageQueue s)"
    using flush_attempts_all [of s net] f by simp
  have off: "\<not> is_connected s \<longrightarrow> (Returned, s') = (Returned, s)"
    using flush_offline [of s net] f by simp
  show ?thesis
    unfolding f using False q i ms sq si fl each pin att off by simp
qed

theorem flush_loses_no_message_witness:
  "flushMessageQueue flaky constructor = (Returned, constructor)
   \<and> messageQueue (snd (flushMessageQueue flaky three_queued)) = [\<lparr>receiverId = 6, content = hi\<rparr>]
   \<and> invoked (snd (flushMessageQueue flaky three_queued)) =
       [(SendMessage 5 hi, True), (SendMessage 6 hi, False), (SendMessage 7 hi, True)]
   \<and> map fst (drop (length (invoked three_queued))
         (invoked (snd (flushMessageQueue flaky three_queued)))) =
       [SendMessage 5 hi, SendMessage 6 hi, SendMessage 7 hi]
   \<and> (\<lparr>receiverId = 7, content = hi\<rparr>
         \<in> set (messageQueue (snd (flushMessageQueue flaky three_queued)))
       \<or> (SendMessage 7 hi, True)
           \<in> set (drop (length (invoked three_queued))
                (invoked (snd (flushMessageQueue flaky three_queued)))))"
proof -
  have e: "messageQueue constructor = []" by (simp add: constructor_def)
  have a: "flushMessageQueue flaky constructor = (Returned, constructor)"
    using flush_loses_no_message [of flaky constructor] e by blast
  have f: "flushMessageQueue flaky three_queued =
      (Returned,
       constructor
         \<lparr>connection :=
            Some (live\<lparr>invocations :=
              [(SendMessage 5 hi, True), (SendMessage 6 hi, False), (SendMessage 7 hi, True)]\<rparr>),
          messageQueue := [\<lparr>receiverId = 6, content = hi\<rparr>]\<rparr>)"
    by (simp add: flushMessageQueue_def three_queued_def constructor_def live_def
        sendMessage_def invoke_def flaky_def Let_def)
  have m: "\<lparr>receiverId = 7, content = hi\<rparr> \<in> set (messageQueue three_queued)"
    by (simp add: three_queued_def)
  have c: "call_of \<lparr>receiverId = 7, content = hi\<rparr> = SendMessage 7 hi"
    by (simp add: call_of_def)
  have "\<forall>m \<in> set (messageQueue three_queued).
        m \<in> set (messageQueue (snd (flushMessageQueue flaky three_queued)))
        \<or> (call_of m, True)
            \<in> set (drop (length (invoked three_queued))
                 (invoked (snd (flushMessageQueue flaky three_queued))))"
    using flush_loses_no_message [of flaky three_queued] by blast
  from bspec [OF this m] have b:
    "\<lparr>receiverId = 7, content = hi\<rparr>
         \<in> set (messageQueue (snd (flushMessageQueue flaky three_queued)))
       \<or> (SendMessage 7 hi, True)
           \<in> set (drop (length (invoked three_queued))
                (invoked (snd (flushMessageQueue flaky three_queued))))"
    unfolding c .
  have q: "messageQueue (snd (flushMessageQueue flaky three_queued)) =
      [\<lparr>receiverId = 6, content = hi\<rparr>]"
    by (simp add: f)
  have i: "invoked (snd (flushMessageQueue flaky three_queued)) =
       [(SendMessage 5 hi, True), (SendMessage 6 hi, False), (SendMessage 7 hi, True)]"
    by (simp add: f invoked_def)
  have st: "is_connected three_queued
      \<and> (\<forall>c call. state_after (flaky c (Invoke call)) = Connected)"
    by (simp add: is_connected_def three_queued_def live_def flaky_def)
  have "map fst (drop (length (invoked three_queued))
         (invoked (snd (flushMessageQueue flaky three_queued)))) =
       map call_of (messageQueue three_queued)"
    using flush_loses_no_message [of flaky three_queued, THEN conjunct2, THEN conjunct1] st
    by (rule mp)
  then have att: "map fst (drop (length (invoked three_queued))
         (invoked (snd (flushMessageQueue flaky three_queued)))) =
       [SendMessage 5 hi, SendMessage 6 hi, SendMessage 7 hi]"
    by (simp add: three_queued_def call_of_def)
  from a q i att b show ?thesis by (intro conjI)
qed

subsection \<open>Failures of the transport\<close>

text \<open>
  C2, as the specification states it, fails: \<open>connect\<close> on a transport whose
  start is rejected throws the rejection to its caller.
\<close>

theorem connect_rethrows_counterexample:
  "outcome (connect silent refusing [0x6A, 0x77, 0x74] constructor) = Threw (Error ''refused'')"
  by (simp add: connect_def connect_catch_def notifyConnectionState_def constructor_def
      refusing_def start_def build_def Let_def)

lemma sendMessage_frame:
  "(snd (sendMessage net rid body s))\<lparr>connection := connection s, messageQueue := messageQueue s\<rparr> = s"
  by (simp add: sendMessage_def split: option.splits prod.splits completion.splits)

lemma sendMessage_rejected:
  assumes "connection s = Some c" and "state c = Connected"
    and "failure (net c (Invoke (SendMessage rid body))) = Some e"
  shows "messageQueue (snd (sendMessage net rid body s)) = messageQueue s @ [entry (rid, body)]"
  using assms by (simp add: sendMessage_def invoke_def Let_def entry_def)

lemma getConversation_result:
  "getConversation net uid s =
     (Returned,
      if is_connected s
      then s\<lparr>connection :=
             map_option (\<lambda>c. snd (invoke net (GetConversation uid) c)) (connection s)\<rparr>
      else s)"
  by (simp add: getConversation_def is_connected_def
      split: option.splits prod.splits completion.splits)

lemma disconnect_result:
  "fst (disconnect net s) =
     (case connection s of
        None \<Rightarrow> Returned
      | Some c \<Rightarrow> (case failure (net c Stop) of None \<Rightarrow> Returned | Some e \<Rightarrow> Threw e))"
  by (simp add: disconnect_def stop_def Let_def split: option.splits)

lemma disconnect_keeps_listeners:
  "connectionStateCallbacks (snd (disconnect net s)) = connectionStateCallbacks s"
  by (simp add: disconnect_def stop_def Let_def split: option.splits)

lemma connect_cases:
  "connect run net tok s =
     (case disconnect net s of
        (Threw e, s1) \<Rightarrow> \<lparr>outcome = Threw e, after = s1, called = []\<rparr>
      | (Returned, s1) \<Rightarrow>
          (case failure (net (build tok) Start) of
             None \<Rightarrow>
               (let d = notifyConnectionState run ''connected'' (started net tok s)
                in case outcome d of
                     Returned \<Rightarrow> d
                   | Threw e \<Rightarrow> connect_catch run e (after d) (called d))
           | Some e \<Rightarrow> connect_catch run e (started net tok s) []))"
proof -
  have d: "(if connection s \<noteq> None then disconnect net s else (Returned, s)) = disconnect net s"
    by (auto simp: disconnect_def)
  show ?thesis
    unfolding connect_def d
    by (simp add: started_def start_def Let_def split: prod.splits completion.splits option.splits)
qed

lemma connect_after_stop_failed:
  "fst (disconnect net s) = Threw e \<Longrightarrow>
   outcome (connect run net tok s) = Threw e \<and> called (connect run net tok s) = []"
  by (cases "disconnect net s") (simp add: connect_cases)

lemma connect_returns_iff:
  assumes "fst (disconnect net s) = Returned"
  shows "outcome (connect run net tok s) = Returned \<longleftrightarrow>
     failure (net (build tok) Start) = None
     \<and> outcome (notifyConnectionState run ''connected'' (started net tok s)) = Returned"
  using assms
  by (cases "disconnect net s")
     (simp add: connect_cases connect_catch_def Let_def
        split: option.splits completion.splits)

lemma connect_returned_calls:
  assumes "outcome (connect run net tok s) = Returned"
  shows "called (connect run net tok s) =
     map (\<lambda>cb. (cb, ConnectionStateChanged ''connected'')) (connectionStateCallbacks s)"
proof -
  obtain r s1 where d: "disconnect net s = (r, s1)" by (cases "disconnect net s")
  have r: "r = Returned"
    using assms d by (cases r) (simp_all add: connect_cases)
  then have f: "fst (disconnect net s) = Returned" using d by simp
  from connect_returns_iff [OF f] assms
  have ok: "failure (net (build tok) Start) = None"
    and n: "outcome (notifyConnectionState run ''connected'' (started net tok s)) = Returned"
    by simp_all
  have c: "connect run net tok s = notifyConnectionState run ''connected'' (started net tok s)"
    using d r ok n by (simp add: connect_cases Let_def)
  have l: "connectionStateCallbacks (started net tok s) = connectionStateCallbacks s"
    by (simp add: started_def disconnect_keeps_listeners)
  show ?thesis
    unfolding c using n l forEach_returned [of run "connectionStateCallbacks s"
        "ConnectionStateChanged ''connected''" "started net tok s"]
    by (simp add: notifyConnectionState_def)
qed

lemma connect_start_rejected:
  assumes "fst (disconnect net s) = Returned" and "failure (net (build tok) Start) = Some e"
  shows "called (connect run net tok s) =
      called (notifyConnectionState run ''error'' (started net tok s))
    \<and> outcome (connect run net tok s) =
        (case outcome (notifyConnectionState run ''error'' (started net tok s)) of
           Returned \<Rightarrow> Threw e | Threw e' \<Rightarrow> Threw e')"
  using assms
  by (cases "disconnect net s") (simp add: connect_cases connect_catch_def Let_def)

lemma connect_quiet:
  assumes "fst (disconnect net s) = Returned"
    and "\<forall>cb \<in> set (connectionStateCallbacks s). \<forall>ev u. fst (run cb ev u) = Returned"
  shows "outcome (connect run net tok s) =
      (case failure (net (build tok) Start) of None \<Rightarrow> Returned | Some e \<Rightarrow> Threw e)
    \<and> called (connect run net tok s) =
        map (\<lambda>cb. (cb, ConnectionStateChanged
              (case failure (net (build tok) Start) of
                 None \<Rightarrow> ''connected'' | Some e \<Rightarrow> ''error'')))
          (connectionStateCallbacks s)"
proof -
  have l: "connectionStateCallbacks (started net tok s) = connectionStateCallbacks s"
    by (simp add: started_def disconnect_keeps_listeners)
  have q: "outcome (notifyConnectionState run st (started net tok s)) = Returned" for st
    unfolding notifyConnectionState_def l using assms(2) by (intro forEach_quiet) blast
  have c: "called (notifyConnectionState run st (started net tok s)) =
      map (\<lambda>cb. (cb, ConnectionStateChanged st)) (connectionStateCallbacks s)" for st
    using q [of st] forEach_returned [of run "connectionStateCallbacks s"
        "ConnectionStateChanged st" "started net tok s"]
    by (simp add: notifyConnectionState_def l)
  show ?thesis
  proof (cases "failure (net (build tok) Start)")
    case None
    have "outcome (connect run net tok s) = Returned"
      using connect_returns_iff [OF assms(1), of run tok] None q by simp
    with connect_returned_calls [of run net tok s] None show ?thesis by simp
  next
    case (Some e)
    with connect_start_rejected [OF assms(1) Some, of run] q [of "''error''"] c [of "''error''"]
    show ?thesis by simp
  qed
qed

text \<open>
  C2, amended. Whatever the transport does, \<open>sendMessage\<close>,
  \<open>getConversation\<close> and \<open>flushMessageQueue\<close> return without throwing.
  \<open>sendMessage\<close> changes nothing but the connection's record and the queue,
  a send that the transport rejects is appended to the queue, and one that
  resolves leaves the queue as it was. \<open>getConversation\<close> changes nothing when the service is not connected and
  nothing but the connection's record when it is, so that a rejected request
  is dropped. \<open>disconnect\<close> throws exactly when there is a connection and its
  stop is rejected. \<open>connect\<close> throws the rejection of the stop of an earlier
  connection, calling no listener. Otherwise it returns exactly when the
  start resolves and no connection-state listener throws on \<open>connected\<close>;
  when the start is rejected it calls the connection-state listeners with
  \<open>error\<close> and throws, the rejection itself unless one of them threw. With
  connection-state listeners that never throw, it throws exactly the
  rejection of the start after calling each of them with \<open>error\<close>, and
  returns after calling each with \<open>connected\<close> when the start resolves.
\<close>

theorem failures_absorbed_except_connect:
  "fst (sendMessage net rid body s) = Returned
   \<and> (snd (sendMessage net rid body s))
        \<lparr>connection := connection s, messageQueue := messageQueue s\<rparr> = s
   \<and> (\<forall>c e. connection s = Some c \<and> state c = Connected
          \<and> failure (net c (Invoke (SendMessage rid body))) = Some e \<longrightarrow>
        messageQueue (snd (sendMessage net rid body s)) = messageQueue s @ [entry (rid, body)])
   \<and> (\<forall>c. connection s = Some c \<and> state c = Connected
          \<and> failure (net c (Invoke (SendMessage rid body))) = None \<longrightarrow>
        messageQueue (snd (sendMessage net rid body s)) = messageQueue s)
   \<and> getConversation net uid s =
       (Returned,
        if is_connected s
        then s\<lparr>connection :=
               map_option (\<lambda>c. snd (invoke net (GetConversation uid) c)) (connection s)\<rparr>
        else s)
   \<and> fst (flushMessageQueue net s) = Returned
   \<and> fst (disconnect net s) =
       (case connection s of
          None \<Rightarrow> Returned
        | Some c \<Rightarrow> (case failure (net c Stop) of None \<Rightarrow> Returned | Some e \<Rightarrow> Threw e))
   \<and> (\<forall>e. fst (disconnect net s) = Threw e \<longrightarrow>
        outcome (connect run net tok s) = Threw e \<and> called (connect run net tok s) = [])
   \<and> (fst (disconnect net s) = Returned \<longrightarrow>
        (outcome (connect run net tok s) = Returned \<longleftrightarrow>
           failure (net (build tok) Start) = None
           \<and> outcome (notifyConnectionState run ''connected'' (started net tok s)) = Returned)
        \<and> (\<forall>e. failure (net (build tok) Start) = Some e \<longrightarrow>
             called (connect run net tok s) =
               called (notifyConnectionState run ''error'' (started net tok s))
             \<and> outcome (connect run net tok s) =
                 (case outcome (notifyConnectionState run ''error'' (started net tok s)) of
                    Returned \<Rightarrow> Threw e | Threw e' \<Rightarrow> Threw e'))
        \<and> ((\<forall>cb \<in> set (connectionStateCallbacks s). \<forall>ev u. fst (run cb ev u) = Returned) \<longrightarrow>
             outcome (connect run net tok s) =
               (case failure (net (build tok) Start) of None \<Rightarrow> Returned | Some e \<Rightarrow> Threw e)
             \<and> called (connect run net tok s) =
                 map (\<lambda>cb. (cb, ConnectionStateChanged
                       (case failure (net (build tok) Start) of
                          None \<Rightarrow> ''connected'' | Some e \<Rightarrow> ''error'')))
                   (connectionStateCallbacks s)))"
proof -
  have 1: "fst (sendMessage net rid body s) = Returned" by (rule sendMessage_returns)
  have 2: "(snd (sendMessage net rid body s))
        \<lparr>connection := connection s, messageQueue := messageQueue s\<rparr> = s"
    by (rule sendMessage_frame)
  have 3: "\<forall>c e. connection s = Some c \<and> state c = Connected
          \<and> failure (net c (Invoke (SendMessage rid body))) = Some e \<longrightarrow>
        messageQueue (snd (sendMessage net rid body s)) = messageQueue s @ [entry (rid, body)]"
    using sendMessage_rejected [of s _ net rid body] by blast
  have 12: "\<forall>c. connection s = Some c \<and> state c = Connected
          \<and> failure (net c (Invoke (SendMessage rid body))) = None \<longrightarrow>
        messageQueue (snd (sendMessage net rid body s)) = messageQueue s"
    using sendMessage_resolved [of s _ net rid body] by auto
  note 4 = getConversation_result [of net uid s]
  have 5: "fst (flushMessageQueue net s) = Returned" by (rule flushMessageQueue_returns)
  note 6 = disconnect_result [of net s]
  have 7: "\<forall>e. fst (disconnect net s) = Threw e \<longrightarrow>
        outcome (connect run net tok s) = Threw e \<and> called (connect run net tok s) = []"
    using connect_after_stop_failed [of net s _ run tok] by blast
  have 8: "fst (disconnect net s) = Returned \<longrightarrow>
        (outcome (connect run net tok s) = Returned \<longleftrightarrow>
           failure (net (build tok) Start) = None
           \<and> outcome (notifyConnectionState run ''connected'' (started net tok s)) = Returned)"
    using connect_returns_iff [of net s run tok] by blast
  have 9: "fst (disconnect net s) = Returned \<longrightarrow>
        (\<forall>e. failure (net (build tok) Start) = Some e \<longrightarrow>
             called (connect run net tok s) =
               called (notifyConnectionState run ''error'' (started net tok s))
             \<and> outcome (connect run net tok s) =
                 (case outcome (notifyConnectionState run ''error'' (started net tok s)) of
                    Returned \<Rightarrow> Threw e | Threw e' \<Rightarrow> Threw e'))"
    using connect_start_rejected [of net s tok _ run] by blast
  have 10: "fst (disconnect net s) = Returned \<longrightarrow>
        ((\<forall>cb \<in> set (connectionStateCallbacks s). \<forall>ev u. fst (run cb ev u) = Returned) \<longrightarrow>
             outcome (connect run net tok s) =
               (case failure (net (build tok) Start) of None \<Rightarrow> Returned | Some e \<Rightarrow> Threw e)
             \<and> called (connect run net tok s) =
                 map (\<lambda>cb. (cb, ConnectionStateChanged
                       (case failure (net (build tok) Start) of
                          None \<Rightarrow> ''connected'' | Some e \<Rightarrow> ''error'')))
                   (connectionStateCallbacks s))"
    using connect_quiet [of net s run tok] by blast
  from 8 9 10 have 11: "fst (disconnect net s) = Returned \<longrightarrow>
        (outcome (connect run net tok s) = Returned \<longleftrightarrow>
           failure (net (build tok) Start) = None
           \<and> outcome (notifyConnectionState run ''connected'' (started net tok s)) = Returned)
        \<and> (\<forall>e. failure (net (build tok) Start) = Some e \<longrightarrow>
             called (connect run net tok s) =
               called (notifyConnectionState run ''error'' (started net tok s))
             \<and> outcome (connect run net tok s) =
                 (case outcome (notifyConnectionState run ''error'' (started net tok s)) of
                    Returned \<Rightarrow> Threw e | Threw e' \<Rightarrow> Threw e'))
        \<and> ((\<forall>cb \<in> set (connectionStateCallbacks s). \<forall>ev u. fst (run cb ev u) = Returned) \<longrightarrow>
             outcome (connect run net tok s) =
               (case failure (net (build tok) Start) of None \<Rightarrow> Returned | Some e \<Rightarrow> Threw e)
             \<and> called (connect run net tok s) =
                 map (\<lambda>cb. (cb, ConnectionStateChanged
                       (case failure (net (build tok) Start) of
                          None \<Rightarrow> ''connected'' | Some e \<Rightarrow> ''error'')))
                   (connectionStateCallbacks s))"
    by (intro impI conjI) (erule (1) mp [THEN iffD1] | blast)+
  from 1 2 3 12 4 5 6 7 11 show ?thesis by (intro conjI)
qed

theorem failures_absorbed_except_connect_witness:
  "fst (disconnect refusing watched) = Returned
   \<and> outcome (connect silent refusing [] watched) = Threw (Error ''refused'')
   \<and> called (connect silent refusing [] watched) = [(1, ConnectionStateChanged ''error'')]
   \<and> outcome (connect silent accepting [] watched) = Returned
   \<and> called (connect silent accepting [] watched) = [(1, ConnectionStateChanged ''connected'')]
   \<and> outcome (connect thrower accepting [] watched) \<noteq> Returned
   \<and> fst (disconnect refusing (constructor\<lparr>connection := Some live\<rparr>)) = Threw (Error ''refused'')
   \<and> outcome (connect silent refusing [] (constructor\<lparr>connection := Some live\<rparr>)) =
       Threw (Error ''refused'')
   \<and> fst (sendMessage refusing 5 hi (constructor\<lparr>connection := Some live\<rparr>)) = Returned
   \<and> messageQueue (snd (sendMessage refusing 5 hi (constructor\<lparr>connection := Some live\<rparr>))) =
       [\<lparr>receiverId = 5, content = hi\<rparr>]
   \<and> fst (getConversation refusing 5 (constructor\<lparr>connection := Some live\<rparr>)) = Returned
   \<and> messageQueue (snd (getConversation refusing 5 (constructor\<lparr>connection := Some live\<rparr>))) = []"
proof -
  let ?on = "constructor\<lparr>connection := Some live\<rparr>"
  have w: "connection watched = None" "connectionStateCallbacks watched = [1]"
    by (simp_all add: watched_def onConnectionStateChanged_def constructor_def)
  have r: "failure (refusing c rq) = Some (Error ''refused'')" for c rq
    by (simp add: refusing_def)
  have a: "failure (accepting c rq) = None" for c rq
    by (simp add: accepting_def)
  have l: "connection ?on = Some live" "state live = Connected" "messageQueue ?on = []"
    "is_connected ?on"
    by (simp_all add: live_def constructor_def is_connected_def)
  have quiet: "\<forall>cb \<in> set (connectionStateCallbacks watched). \<forall>ev u. fst (silent cb ev u) = Returned"
    by (simp add: silent_def)
  have loud: "outcome (notifyConnectionState thrower ''connected'' (started accepting [] watched))
      \<noteq> Returned"
    using w by (simp add: notifyConnectionState_def started_def disconnect_def thrower_def)
  note refused = failures_absorbed_except_connect [of refusing 5 hi watched 0 silent "[]"]
  note accepted = failures_absorbed_except_connect [of accepting 5 hi watched 0 silent "[]"]
  note thrown = failures_absorbed_except_connect [of accepting 5 hi watched 0 thrower "[]"]
  note online = failures_absorbed_except_connect [of refusing 5 hi ?on 5 silent "[]"]
  note stop_of = conjunct2 [THEN conjunct2, THEN conjunct2, THEN conjunct2, THEN conjunct2,
      THEN conjunct2, THEN conjunct1]
  note stop_failed = conjunct2 [THEN conjunct2, THEN conjunct2, THEN conjunct2, THEN conjunct2,
      THEN conjunct2, THEN conjunct2, THEN conjunct1]
  note start_of = conjunct2 [THEN conjunct2, THEN conjunct2, THEN conjunct2, THEN conjunct2,
      THEN conjunct2, THEN conjunct2, THEN conjunct2]
  have p1: "fst (disconnect refusing watched) = Returned"
    using refused [THEN stop_of] w by simp
  have p1b: "fst (disconnect accepting watched) = Returned"
    using accepted [THEN stop_of] w by simp
  have p2: "outcome (connect silent refusing [] watched) = Threw (Error ''refused'')
     \<and> called (connect silent refusing [] watched) = [(1, ConnectionStateChanged ''error'')]"
    using refused [THEN start_of, THEN mp, OF p1, THEN conjunct2, THEN conjunct2, THEN mp, OF quiet]
      w r by simp
  have p3: "outcome (connect silent accepting [] watched) = Returned
     \<and> called (connect silent accepting [] watched) = [(1, ConnectionStateChanged ''connected'')]"
    using accepted [THEN start_of, THEN mp, OF p1b, THEN conjunct2, THEN conjunct2, THEN mp, OF quiet]
      w a by simp
  have p4: "outcome (connect thrower accepting [] watched) \<noteq> Returned"
    using thrown [THEN start_of, THEN mp, OF p1b, THEN conjunct1] loud by simp
  have p5: "fst (disconnect refusing ?on) = Threw (Error ''refused'')"
    using online [THEN stop_of] l r by simp
  have p6: "outcome (connect silent refusing [] ?on) = Threw (Error ''refused'')"
    using online [THEN stop_failed] p5 by simp
  have p7: "fst (sendMessage refusing 5 hi ?on) = Returned"
    using online [THEN conjunct1] .
  have p8: "messageQueue (snd (sendMessage refusing 5 hi ?on)) = [\<lparr>receiverId = 5, content = hi\<rparr>]"
    using online [THEN conjunct2, THEN conjunct2, THEN conjunct1] l r
    by (simp add: entry_def)
  have p9: "fst (getConversation refusing 5 ?on) = Returned
    \<and> messageQueue (snd (getConversation refusing 5 ?on)) = []"
    using online [THEN conjunct2, THEN conjunct2, THEN conjunct2, THEN conjunct2,
        THEN conjunct1] l
    by simp
  from p1 p2 p3 p4 p5 p6 p7 p8 p9 show ?thesis by (intro conjI) (erule conjunct1 conjunct2 | assumption)+
qed

end
